theory Spec2Isabelle
  imports Main
begin

section \<open>MatBottomSheetRef: the dismissal and disposal state machine\<close>

text \<open>
  The unit under verification is the class \<open>MatBottomSheetRef\<close> of
  \<^verbatim>\<open>src/material/bottom-sheet/bottom-sheet-ref.ts\<close>. It is purely event driven: its
  constructor registers four subscriptions, \<open>dismiss\<close> registers a fifth kind, and everything
  else happens in the handlers of those subscriptions and in one timer callback.

  The embedding is a state machine. The state holds the fields of the class, one flag per
  \<open>take(1)\<close> subscription (still subscribed or not), the number of first-\<open>start\<close> listeners
  registered by \<open>dismiss\<close>, the timers of the event loop that this unit has armed, and the
  ordered list of calls made to the two collaborators (container and overlay reference).
  The collaborators themselves are the environment: whatever they deliver is an input.
  A handler runs to its end before the next input is taken, as handlers do on the event loop;
  what the subscribers of the two public streams do in reaction appears as later inputs.
\<close>

subsection \<open>Events delivered by the collaborators\<close>

text \<open>The animation event of the container: \<open>phaseName\<close>, \<open>toState\<close> and \<open>totalTime\<close>
  are the three fields the source reads. Times are whole milliseconds.\<close>

record animation_event =
  phaseName :: string
  toState :: string
  totalTime :: nat

record keyboard_event =
  keyCode :: nat
  altKey :: bool
  shiftKey :: bool
  ctrlKey :: bool
  metaKey :: bool

text \<open>\<open>backdropClick()\<close> delivers mouse events, \<open>keydownEvents()\<close> delivers keyboard events;
  the merged handler tells them apart by \<open>event.type\<close>.\<close>

datatype dom_event = MouseEvent | KeyboardEvent keyboard_event

fun event_type :: "dom_event \<Rightarrow> string" where
  "event_type MouseEvent = ''click''"
| "event_type (KeyboardEvent k) = ''keydown''"

text \<open>Modelled from the spec: the key code constant \<open>ESCAPE\<close> of the keycodes package, which
  is not among the sources; the spec only calls it "the Escape key".\<close>

definition ESCAPE :: nat where
  "ESCAPE = 27"

text \<open>Modelled from the spec: \<open>hasModifierKey\<close> of the keycodes package, which is not among
  the sources; the spec describes it as "a modifier key held (e.g. Shift+Escape)". The source
  evaluates it only on events whose type is \<open>keydown\<close>.\<close>

fun hasModifierKey :: "dom_event \<Rightarrow> bool" where
  "hasModifierKey (KeyboardEvent k) = (altKey k \<or> shiftKey k \<or> ctrlKey k \<or> metaKey k)"
| "hasModifierKey MouseEvent = False"

subsection \<open>Notification streams\<close>

datatype 'a notification = Next 'a | Complete

text \<open>The stream type (\<open>Subject\<close>) comes from the rxjs library, which is not among the
  sources. A subject carries two flags. \<open>isStopped\<close> is set by \<open>complete()\<close>; once it is set,
  \<open>next()\<close> and \<open>complete()\<close> do nothing. \<open>closed\<close> is set by \<open>unsubscribe()\<close> alone.
  The source never calls \<open>unsubscribe()\<close> on either of its subjects, so no operation here
  sets \<open>closed\<close>: completing a subject leaves it false.\<close>

record 'a subject =
  notifications :: "'a notification list"
  isStopped :: bool
  closed :: bool

definition subject_next :: "'a \<Rightarrow> 'a subject \<Rightarrow> 'a subject" where
  "subject_next v sub =
     (if isStopped sub then sub else sub\<lparr>notifications := notifications sub @ [Next v]\<rparr>)"

definition subject_complete :: "'a subject \<Rightarrow> 'a subject" where
  "subject_complete sub =
     (if isStopped sub then sub
      else sub\<lparr>notifications := notifications sub @ [Complete], isStopped := True\<rparr>)"

subsection \<open>The state\<close>

text \<open>Calls made by the unit to its collaborators and to the timer functions, in order.
  \<open>SetTimeout h d\<close>: a timer with handle \<open>h\<close> was armed for \<open>d\<close> milliseconds;
  \<open>ClearTimeout h\<close>: \<open>clearTimeout\<close> was called on the stored handle (possibly undefined).\<close>

datatype call =
    Exit
  | Dispose
  | DetachBackdrop
  | PreventDefault
  | SetTimeout nat nat
  | ClearTimeout "nat option"

record 'r bottom_sheet_ref =
  disableClose :: "bool option"
  afterDismissed :: "'r option subject"
  afterOpened :: "unit subject"
  result :: "'r option"
  closeFallbackTimeout :: "nat option"
  openedSubscribed :: bool
  hiddenSubscribed :: bool
  detachSubscribed :: bool
  startSubscriptions :: nat
  now :: nat
  timers :: "(nat \<times> nat) list"
  nextHandle :: nat
  calls :: "call list"

text \<open>The constructor copies \<open>bottomSheetConfig.disableClose\<close> (a boolean or undefined) and
  registers its subscriptions; nothing else happens at construction.\<close>

definition construct :: "bool option \<Rightarrow> 'r bottom_sheet_ref" where
  "construct configDisableClose =
     \<lparr> disableClose = configDisableClose,
       afterDismissed = \<lparr>notifications = [], isStopped = False, closed = False\<rparr>,
       afterOpened = \<lparr>notifications = [], isStopped = False, closed = False\<rparr>,
       result = None,
       closeFallbackTimeout = None,
       openedSubscribed = True,
       hiddenSubscribed = True,
       detachSubscribed = True,
       startSubscriptions = 0,
       now = 0,
       timers = [],
       nextHandle = 1,
       calls = [] \<rparr>"

subsection \<open>Timers\<close>

text \<open>Every timer this unit arms has the same action, \<open>_overlayRef.dispose()\<close>, so a pending
  timer is its handle and the time at which it is due.\<close>

definition call :: "call \<Rightarrow> 'r bottom_sheet_ref \<Rightarrow> 'r bottom_sheet_ref" where
  "call c s = s\<lparr>calls := calls s @ [c]\<rparr>"

text \<open>The browser keeps the delay of a timer as a signed 32-bit integer: the requested
  number of milliseconds is reduced modulo 4294967296, and a value that is negative as a signed
  integer (2147483648 and above) counts as no delay at all. So only a delay below 2147483648
  milliseconds is honoured as requested. A timer without delay is due at once: it fires with
  the next passage of time, however short.\<close>

definition timerDelay :: "nat \<Rightarrow> nat" where
  "timerDelay delay =
     (if delay mod 4294967296 < 2147483648 then delay mod 4294967296 else 0)"

definition setTimeout :: "nat \<Rightarrow> 'r bottom_sheet_ref \<Rightarrow> nat \<times> 'r bottom_sheet_ref" where
  "setTimeout delay s =
     (nextHandle s,
      call (SetTimeout (nextHandle s) delay)
        (s\<lparr>timers := timers s @ [(nextHandle s, now s + timerDelay delay)],
           nextHandle := Suc (nextHandle s)\<rparr>))"

definition clearTimeout :: "nat option \<Rightarrow> 'r bottom_sheet_ref \<Rightarrow> 'r bottom_sheet_ref" where
  "clearTimeout h s =
     call (ClearTimeout h)
       (case h of
          None \<Rightarrow> s
        | Some k \<Rightarrow> s\<lparr>timers := filter (\<lambda>t. fst t \<noteq> k) (timers s)\<rparr>)"

text \<open>The clock advances by \<open>d\<close> milliseconds: every pending timer that is due by then fires
  (each calls \<open>dispose()\<close>) and is gone.\<close>

definition advance :: "nat \<Rightarrow> 'r bottom_sheet_ref \<Rightarrow> 'r bottom_sheet_ref" where
  "advance d s =
     s\<lparr>now := now s + d,
       timers := filter (\<lambda>t. \<not> snd t \<le> now s + d) (timers s),
       calls := calls s @ replicate (length (filter (\<lambda>t. snd t \<le> now s + d) (timers s))) Dispose\<rparr>"

subsection \<open>The handlers of the constructor's subscriptions\<close>

definition onOpened :: "'r bottom_sheet_ref \<Rightarrow> 'r bottom_sheet_ref" where
  "onOpened s = s\<lparr>afterOpened := subject_complete (subject_next () (afterOpened s))\<rparr>"

definition onHidden :: "'r bottom_sheet_ref \<Rightarrow> 'r bottom_sheet_ref" where
  "onHidden s = call Dispose (clearTimeout (closeFallbackTimeout s) s)"

definition onDetached :: "'r bottom_sheet_ref \<Rightarrow> 'r bottom_sheet_ref" where
  "onDetached s =
     s\<lparr>afterDismissed := subject_complete (subject_next (result s) (afterDismissed s))\<rparr>"

text \<open>The handler that \<open>dismiss\<close> registers for the first \<open>start\<close> event: arm the fallback
  timer, store its handle, detach the backdrop.\<close>

definition onStart :: "animation_event \<Rightarrow> 'r bottom_sheet_ref \<Rightarrow> 'r bottom_sheet_ref" where
  "onStart event s =
     (let (h, s') = setTimeout (totalTime event + 100) s
      in call DetachBackdrop (s'\<lparr>closeFallbackTimeout := Some h\<rparr>))"

subsection \<open>dismiss\<close>

text \<open>The guard of \<open>dismiss\<close> reads the flag \<open>closed\<close> of the \<open>afterDismissed\<close> subject.\<close>

definition dismiss :: "'r option \<Rightarrow> 'r bottom_sheet_ref \<Rightarrow> 'r bottom_sheet_ref" where
  "dismiss res s =
     (if \<not> closed (afterDismissed s) then
        call Exit (s\<lparr>startSubscriptions := Suc (startSubscriptions s), result := res\<rparr>)
      else s)"

subsection \<open>Delivery of events to the subscriptions\<close>

text \<open>An animation event goes to the subscribers in the order of their subscription: the two
  of the constructor, then the listeners of \<open>dismiss\<close>. A \<open>take(1)\<close> subscription ends with the
  first event that passes its filter.\<close>

definition animationStateChanged ::
    "animation_event \<Rightarrow> 'r bottom_sheet_ref \<Rightarrow> 'r bottom_sheet_ref" where
  "animationStateChanged event s =
     (let s1 = (if openedSubscribed s \<and> phaseName event = ''done'' \<and> toState event = ''visible''
                then onOpened (s\<lparr>openedSubscribed := False\<rparr>) else s);
          s2 = (if hiddenSubscribed s1 \<and> phaseName event = ''done'' \<and> toState event = ''hidden''
                then onHidden (s1\<lparr>hiddenSubscribed := False\<rparr>) else s1)
      in if phaseName event = ''start''
         then (onStart event ^^ startSubscriptions s2) (s2\<lparr>startSubscriptions := 0\<rparr>)
         else s2)"

definition detachments :: "'r bottom_sheet_ref \<Rightarrow> 'r bottom_sheet_ref" where
  "detachments s =
     (if detachSubscribed s then onDetached (s\<lparr>detachSubscribed := False\<rparr>) else s)"

text \<open>\<open>!this.disableClose\<close>: undefined and false both allow closing.\<close>

definition closeAllowed :: "'r bottom_sheet_ref \<Rightarrow> bool" where
  "closeAllowed s = (disableClose s \<noteq> Some True)"

text \<open>The handler of the merged stream of backdrop clicks and Escape key presses.\<close>

definition onBackdropOrEscape :: "dom_event \<Rightarrow> 'r bottom_sheet_ref \<Rightarrow> 'r bottom_sheet_ref" where
  "onBackdropOrEscape event s =
     (if closeAllowed s \<and> (event_type event \<noteq> ''keydown'' \<or> \<not> hasModifierKey event)
      then dismiss None (call PreventDefault s)
      else s)"

definition backdropClick :: "'r bottom_sheet_ref \<Rightarrow> 'r bottom_sheet_ref" where
  "backdropClick s = onBackdropOrEscape MouseEvent s"

definition keydownEvents :: "keyboard_event \<Rightarrow> 'r bottom_sheet_ref \<Rightarrow> 'r bottom_sheet_ref" where
  "keydownEvents k s =
     (if keyCode k = ESCAPE then onBackdropOrEscape (KeyboardEvent k) s else s)"

subsection \<open>Runs\<close>

text \<open>Everything that can happen to an instance: a call of \<open>dismiss\<close>, an assignment to the
  public field \<open>disableClose\<close>, an event of one of the collaborators, or time passing.\<close>

datatype 'r input =
    Dismiss "'r option"
  | SetDisableClose "bool option"
  | Animation animation_event
  | Detachment
  | BackdropClick
  | Keydown keyboard_event
  | Advance nat

fun step :: "'r input \<Rightarrow> 'r bottom_sheet_ref \<Rightarrow> 'r bottom_sheet_ref" where
  "step (Dismiss res) s = dismiss res s"
| "step (SetDisableClose v) s = s\<lparr>disableClose := v\<rparr>"
| "step (Animation event) s = animationStateChanged event s"
| "step Detachment s = detachments s"
| "step BackdropClick s = backdropClick s"
| "step (Keydown k) s = keydownEvents k s"
| "step (Advance d) s = advance d s"

fun run :: "'r input list \<Rightarrow> 'r bottom_sheet_ref \<Rightarrow> 'r bottom_sheet_ref" where
  "run [] s = s"
| "run (i # tr) s = run tr (step i s)"

subsection \<open>Classifying inputs\<close>



fun is_done_visible :: "'r input \<Rightarrow> bool" where
  "is_done_visible (Animation event) = (phaseName event = ''done'' \<and> toState event = ''visible'')"
| "is_done_visible _ = False"

fun is_dismiss_trigger :: "'r input \<Rightarrow> bool" where
  "is_dismiss_trigger (Dismiss res) = True"
| "is_dismiss_trigger BackdropClick = True"
| "is_dismiss_trigger (Keydown k) = True"
| "is_dismiss_trigger _ = False"

fun is_detachment :: "'r input \<Rightarrow> bool" where
  "is_detachment Detachment = True"
| "is_detachment _ = False"

text \<open>The time that passes during a run.\<close>

fun elapsed :: "'r input list \<Rightarrow> nat" where
  "elapsed [] = 0"
| "elapsed (Advance d # tr) = d + elapsed tr"
| "elapsed (_ # tr) = elapsed tr"


definition disposals :: "'r bottom_sheet_ref \<Rightarrow> nat" where
  "disposals s = count_list (calls s) Dispose"

definition exits :: "'r bottom_sheet_ref \<Rightarrow> nat" where
  "exits s = count_list (calls s) Exit"

subsection \<open>The arguments of dismiss, as the specification speaks of them\<close>

text \<open>The values passed to \<open>dismiss\<close> in the course of a run, in order: the arguments of the
  caller's own calls, and undefined for every call that the backdrop/Escape handler makes.
  The first argument is the value of \<open>disableClose\<close> when the run starts.\<close>

fun dismiss_arguments :: "bool option \<Rightarrow> 'r input list \<Rightarrow> 'r option list" where
  "dismiss_arguments dc [] = []"
| "dismiss_arguments dc (Dismiss res # tr) = res # dismiss_arguments dc tr"
| "dismiss_arguments dc (SetDisableClose v # tr) = dismiss_arguments v tr"
| "dismiss_arguments dc (BackdropClick # tr) =
     (if dc \<noteq> Some True then None # dismiss_arguments dc tr else dismiss_arguments dc tr)"
| "dismiss_arguments dc (Keydown k # tr) =
     (if dc \<noteq> Some True \<and> keyCode k = ESCAPE \<and> \<not> hasModifierKey (KeyboardEvent k)
      then None # dismiss_arguments dc tr else dismiss_arguments dc tr)"
| "dismiss_arguments dc (Animation event # tr) = dismiss_arguments dc tr"
| "dismiss_arguments dc (Detachment # tr) = dismiss_arguments dc tr"
| "dismiss_arguments dc (Advance d # tr) = dismiss_arguments dc tr"

text \<open>"The last value passed to \<open>dismiss\<close>, or undefined if \<open>dismiss\<close> was never called".\<close>

definition last_dismiss_argument :: "bool option \<Rightarrow> 'r input list \<Rightarrow> 'r option" where
  "last_dismiss_argument dc tr =
     (case dismiss_arguments dc tr of [] \<Rightarrow> None | a # as \<Rightarrow> last (a # as))"


section \<open>Properties\<close>

lemmas handler_defs =
  dismiss_def call_def onOpened_def onHidden_def onDetached_def onStart_def setTimeout_def
  clearTimeout_def advance_def detachments_def closeAllowed_def onBackdropOrEscape_def
  backdropClick_def keydownEvents_def subject_next_def subject_complete_def

lemmas eval_defs =
  construct_def animationStateChanged_def Let_def handler_defs disposals_def exits_def ESCAPE_def
  timerDelay_def

lemma run_append: "run (xs @ ys) s = run ys (run xs s)"
  by (induction xs arbitrary: s) simp_all

lemma onStart_pow_frame:
  "afterDismissed ((onStart e ^^ n) s) = afterDismissed s"
  "afterOpened ((onStart e ^^ n) s) = afterOpened s"
  "result ((onStart e ^^ n) s) = result s"
  "disableClose ((onStart e ^^ n) s) = disableClose s"
  "openedSubscribed ((onStart e ^^ n) s) = openedSubscribed s"
  "hiddenSubscribed ((onStart e ^^ n) s) = hiddenSubscribed s"
  "detachSubscribed ((onStart e ^^ n) s) = detachSubscribed s"
  "startSubscriptions ((onStart e ^^ n) s) = startSubscriptions s"
  "now ((onStart e ^^ n) s) = now s"
  by (induction n) (simp_all add: onStart_def setTimeout_def call_def)

lemma animation_frame:
  "afterDismissed (animationStateChanged e s) = afterDismissed s"
  "result (animationStateChanged e s) = result s"
  "disableClose (animationStateChanged e s) = disableClose s"
  "detachSubscribed (animationStateChanged e s) = detachSubscribed s"
  "now (animationStateChanged e s) = now s"
  by (simp_all add: animationStateChanged_def Let_def onStart_pow_frame handler_defs split: option.split)

subsection \<open>afterOpened\<close>

lemma afterOpened_step_unsubscribed:
  "\<not> openedSubscribed s \<Longrightarrow>
     afterOpened (step i s) = afterOpened s \<and> \<not> openedSubscribed (step i s)"
  by (cases i)
     (simp_all add: animationStateChanged_def Let_def onStart_pow_frame handler_defs split: option.split)

lemma afterOpened_run_unsubscribed:
  "\<not> openedSubscribed s \<Longrightarrow> afterOpened (run tr s) = afterOpened s"
  by (induction tr arbitrary: s) (simp_all add: afterOpened_step_unsubscribed)

lemma afterOpened_step_waiting:
  "openedSubscribed s \<Longrightarrow> \<not> is_done_visible i \<Longrightarrow>
     afterOpened (step i s) = afterOpened s \<and> openedSubscribed (step i s)"
  by (cases i)
     (simp_all add: animationStateChanged_def Let_def onStart_pow_frame handler_defs split: option.split)

lemma afterOpened_step_fires:
  "openedSubscribed s \<Longrightarrow> is_done_visible i \<Longrightarrow> \<not> isStopped (afterOpened s) \<Longrightarrow>
     notifications (afterOpened (step i s)) = notifications (afterOpened s) @ [Next (), Complete]
     \<and> \<not> openedSubscribed (step i s)"
  by (cases i)
     (simp_all add: animationStateChanged_def Let_def onStart_pow_frame handler_defs split: option.split)

lemma afterOpened_run:
  "openedSubscribed s \<Longrightarrow> \<not> isStopped (afterOpened s) \<Longrightarrow>
     notifications (afterOpened (run tr s)) =
       notifications (afterOpened s) @ (if list_ex is_done_visible tr then [Next (), Complete] else [])"
proof (induction tr arbitrary: s)
  case Nil
  then show ?case by simp
next
  case (Cons i tr)
  show ?case
  proof (cases "is_done_visible i")
    case True
    with Cons.prems have "notifications (afterOpened (step i s)) = notifications (afterOpened s) @ [Next (), Complete]"
      and "\<not> openedSubscribed (step i s)"
      using afterOpened_step_fires by blast+
    then show ?thesis using True by (simp add: afterOpened_run_unsubscribed)
  next
    case False
    with Cons.prems have "afterOpened (step i s) = afterOpened s" and "openedSubscribed (step i s)"
      using afterOpened_step_waiting by blast+
    with Cons.IH [of "step i s"] Cons.prems False show ?thesis by simp
  qed
qed

text \<open>
  Claim C6. For every constructed instance and every run, the \<open>afterOpened\<close> stream has sent
  nothing as long as no animation event with phase \<open>done\<close> and target state \<open>visible\<close> has
  been delivered; from the first such event on it has sent exactly one notification without
  payload followed by its completion, and nothing more, whatever is delivered afterwards.
\<close>

theorem afterOpened_emits_once_on_done_visible:
  "notifications (afterOpened (run tr (construct c))) =
     (if list_ex is_done_visible tr then [Next (), Complete] else [])"
  using afterOpened_run [of "construct c" tr] by (simp add: construct_def)

theorem afterOpened_emits_once_on_done_visible_witness:
  "notifications (afterOpened (run
      [Animation \<lparr>phaseName = ''start'', toState = ''visible'', totalTime = 200\<rparr>,
       Animation \<lparr>phaseName = ''done'', toState = ''visible'', totalTime = 200\<rparr>,
       Animation \<lparr>phaseName = ''done'', toState = ''visible'', totalTime = 200\<rparr>]
      (construct None :: nat bottom_sheet_ref))) = [Next (), Complete]
   \<and> notifications (afterOpened (run
      [Animation \<lparr>phaseName = ''start'', toState = ''visible'', totalTime = 200\<rparr>,
       Dismiss None,
       Animation \<lparr>phaseName = ''done'', toState = ''hidden'', totalTime = 200\<rparr>]
      (construct None :: nat bottom_sheet_ref))) = []"
  using
    afterOpened_emits_once_on_done_visible [where c = None and tr =
      "[Animation \<lparr>phaseName = ''start'', toState = ''visible'', totalTime = 200\<rparr>,
        Animation \<lparr>phaseName = ''done'', toState = ''visible'', totalTime = 200\<rparr>,
        Animation \<lparr>phaseName = ''done'', toState = ''visible'', totalTime = 200\<rparr>]
       :: nat input list"]
    afterOpened_emits_once_on_done_visible [where c = None and tr =
      "[Animation \<lparr>phaseName = ''start'', toState = ''visible'', totalTime = 200\<rparr>,
        Dismiss None,
        Animation \<lparr>phaseName = ''done'', toState = ''hidden'', totalTime = 200\<rparr>]
       :: nat input list"]
  by simp

subsection \<open>afterDismissed\<close>

lemma step_before_detachment:
  "detachSubscribed s \<Longrightarrow> i \<noteq> Detachment \<Longrightarrow>
     afterDismissed (step i s) = afterDismissed s \<and> detachSubscribed (step i s)"
  by (cases i) (simp_all add: animation_frame handler_defs)

lemma step_after_detachment:
  "\<not> detachSubscribed s \<Longrightarrow>
     afterDismissed (step i s) = afterDismissed s \<and> \<not> detachSubscribed (step i s)"
  by (cases i) (simp_all add: animation_frame handler_defs)

lemma run_after_detachment:
  "\<not> detachSubscribed s \<Longrightarrow> afterDismissed (run tr s) = afterDismissed s"
  by (induction tr arbitrary: s) (simp_all add: step_after_detachment)

lemma run_before_detachment:
  "detachSubscribed s \<Longrightarrow> Detachment \<notin> set tr \<Longrightarrow>
     afterDismissed (run tr s) = afterDismissed s \<and> detachSubscribed (run tr s)"
proof (induction tr arbitrary: s)
  case Nil
  then show ?case by simp
next
  case (Cons i tr)
  from Cons.prems have "i \<noteq> Detachment" and rest: "Detachment \<notin> set tr" by auto
  with Cons.prems have st: "afterDismissed (step i s) = afterDismissed s" "detachSubscribed (step i s)"
    using step_before_detachment by blast+
  with Cons.IH [of "step i s"] rest show ?case by simp
qed

lemma step_never_closes: "closed (afterDismissed (step i s)) = closed (afterDismissed s)"
  by (cases i) (simp_all add: animation_frame handler_defs)

lemma run_never_closes: "closed (afterDismissed (run tr s)) = closed (afterDismissed s)"
  by (induction tr arbitrary: s) (simp_all add: step_never_closes)

lemma never_closed: "\<not> closed (afterDismissed (run tr (construct c)))"
  by (simp add: run_never_closes construct_def)

lemma step_disableClose:
  "disableClose (step i s) = (case i of SetDisableClose v \<Rightarrow> v | _ \<Rightarrow> disableClose s)"
  by (cases i) (simp_all add: animation_frame handler_defs)

lemma result_step:
  "\<not> closed (afterDismissed s) \<Longrightarrow>
     result (step i s) =
       (case dismiss_arguments (disableClose s) [i] of [] \<Rightarrow> result s | a # as \<Rightarrow> a)"
  by (cases i) (simp_all add: animation_frame handler_defs)

lemma dismiss_arguments_Cons:
  "dismiss_arguments dc (i # tr) =
     dismiss_arguments dc [i] @
     dismiss_arguments (case i of SetDisableClose v \<Rightarrow> v | _ \<Rightarrow> dc) tr"
  by (cases i) simp_all

lemma dismiss_arguments_single: "length (dismiss_arguments dc [i]) \<le> 1"
  by (cases i) simp_all

lemma result_run:
  "\<not> closed (afterDismissed s) \<Longrightarrow>
     result (run tr s) =
       (case dismiss_arguments (disableClose s) tr of [] \<Rightarrow> result s | a # as \<Rightarrow> last (a # as))"
proof (induction tr arbitrary: s)
  case Nil
  then show ?case by simp
next
  case (Cons i tr)
  have st: "\<not> closed (afterDismissed (step i s))"
    using Cons.prems by (simp add: step_never_closes)
  let ?dc = "case i of SetDisableClose v \<Rightarrow> v | _ \<Rightarrow> disableClose s"
  have ih: "result (run tr (step i s)) =
      (case dismiss_arguments ?dc tr of [] \<Rightarrow> result (step i s) | a # as \<Rightarrow> last (a # as))"
    using Cons.IH [OF st] by (simp add: step_disableClose)
  have hd: "result (step i s) =
      (case dismiss_arguments (disableClose s) [i] of [] \<Rightarrow> result s | a # as \<Rightarrow> a)"
    using result_step Cons.prems by blast
  have one: "length (dismiss_arguments (disableClose s) [i]) \<le> 1"
    by (rule dismiss_arguments_single)
  show ?case
    unfolding run.simps ih hd dismiss_arguments_Cons [of "disableClose s" i tr]
    using one
    by (cases "dismiss_arguments (disableClose s) [i]"; cases "dismiss_arguments ?dc tr") simp_all
qed

lemma detachment_step:
  "detachSubscribed s \<Longrightarrow> \<not> isStopped (afterDismissed s) \<Longrightarrow>
     notifications (afterDismissed (step Detachment s)) =
       notifications (afterDismissed s) @ [Next (result s), Complete]
     \<and> \<not> detachSubscribed (step Detachment s)"
  by (simp add: handler_defs)

lemma takeWhile_first:
  "x \<notin> set pre \<Longrightarrow> takeWhile (\<lambda>i. i \<noteq> x) (pre @ x # post) = pre"
  by (induction pre) auto

text \<open>
  Claim C4. For every constructed instance and every run, the \<open>afterDismissed\<close> stream has sent
  nothing as long as the overlay has not reported a detachment (no animation event makes it
  send). From the first detachment on it has sent exactly one notification followed by its
  completion; the payload is the last value passed to \<open>dismiss\<close> before that detachment,
  undefined when \<open>dismiss\<close> was not called or was last called without a value.
\<close>

theorem afterDismissed_emits_result_on_detachment:
  "notifications (afterDismissed (run tr (construct c))) =
     (if Detachment \<in> set tr
      then [Next (last_dismiss_argument c (takeWhile (\<lambda>i. i \<noteq> Detachment) tr)), Complete]
      else [])"
proof (cases "Detachment \<in> set tr")
  case False
  then show ?thesis
    using run_before_detachment [of "construct c" tr] by (simp add: construct_def)
next
  case True
  then obtain pre post where tr: "tr = pre @ Detachment # post" and pre: "Detachment \<notin> set pre"
    by (meson split_list_first)
  let ?s = "run pre (construct c)"
  have p: "afterDismissed ?s = afterDismissed (construct c) \<and> detachSubscribed ?s"
    using run_before_detachment [of "construct c" pre] pre by (simp add: construct_def)
  then have q: "detachSubscribed ?s" "\<not> isStopped (afterDismissed ?s)"
    by (simp_all add: construct_def)
  have r: "result ?s = last_dismiss_argument c pre"
    using result_run [of "construct c" pre]
    by (simp add: construct_def last_dismiss_argument_def split: list.split)
  have d: "notifications (afterDismissed (step Detachment ?s)) = [Next (result ?s), Complete]"
     "\<not> detachSubscribed (step Detachment ?s)"
    using detachment_step [OF q] p by (simp_all add: construct_def)
  have "afterDismissed (run post (step Detachment ?s)) = afterDismissed (step Detachment ?s)"
    using run_after_detachment [OF d(2)] by simp
  with d r True show ?thesis
    by (simp add: tr run_append takeWhile_first [OF pre])
qed

theorem afterDismissed_emits_result_on_detachment_witness:
  "notifications (afterDismissed (run
      [Dismiss (Some (5::nat)),
       Animation \<lparr>phaseName = ''done'', toState = ''hidden'', totalTime = 200\<rparr>,
       Detachment, Dismiss (Some 6), Detachment]
      (construct None))) = [Next (Some 5), Complete]
   \<and> notifications (afterDismissed (run
      [Dismiss (Some (5::nat)),
       Animation \<lparr>phaseName = ''done'', toState = ''hidden'', totalTime = 200\<rparr>]
      (construct None))) = []"
  using
    afterDismissed_emits_result_on_detachment [where c = None and tr =
      "[Dismiss (Some (5::nat)),
        Animation \<lparr>phaseName = ''done'', toState = ''hidden'', totalTime = 200\<rparr>,
        Detachment, Dismiss (Some 6), Detachment]"]
    afterDismissed_emits_result_on_detachment [where c = None and tr =
      "[Dismiss (Some (5::nat)),
        Animation \<lparr>phaseName = ''done'', toState = ''hidden'', totalTime = 200\<rparr>]"]
  by (simp add: last_dismiss_argument_def)

subsection \<open>Timers and teardown\<close>






lemma elapsed_Cons: "elapsed (i # tr) = elapsed [i] + elapsed tr"
  by (cases i) simp_all

lemma elapsed_append: "elapsed (xs @ ys) = elapsed xs + elapsed ys"
proof (induction xs)
  case Nil
  then show ?case by simp
next
  case (Cons i xs)
  then show ?case
    using elapsed_Cons [of i "xs @ ys"] elapsed_Cons [of i xs] by simp
qed


























subsection \<open>dismiss and the close guard\<close>

lemma result_step_other: "\<not> is_dismiss_trigger i \<Longrightarrow> result (step i s) = result s"
  by (cases i) (simp_all add: animation_frame handler_defs)

lemma result_run_other: "\<forall>i\<in>set tr. \<not> is_dismiss_trigger i \<Longrightarrow> result (run tr s) = result s"
  by (induction tr arbitrary: s) (simp_all add: result_step_other)

lemma onStart_pow_disableClose:
  "(onStart e ^^ n) (s\<lparr>disableClose := v\<rparr>) = ((onStart e ^^ n) s)\<lparr>disableClose := v\<rparr>"
  by (induction n) (simp_all add: onStart_def setTimeout_def call_def)

lemma start_event:
  "phaseName e = ''start'' \<Longrightarrow>
     animationStateChanged e s = (onStart e ^^ startSubscriptions s) (s\<lparr>startSubscriptions := 0\<rparr>)"
  by (simp add: animationStateChanged_def)

lemma animation_disableClose:
  "animationStateChanged e (s\<lparr>disableClose := v\<rparr>) = (animationStateChanged e s)\<lparr>disableClose := v\<rparr>"
proof (cases "phaseName e = ''start''")
  case True
  have "s\<lparr>disableClose := v, startSubscriptions := 0\<rparr> = (s\<lparr>startSubscriptions := 0\<rparr>)\<lparr>disableClose := v\<rparr>"
    by simp
  then show ?thesis
    by (simp only: start_event [OF True] onStart_pow_disableClose) simp
next
  case False
  then show ?thesis by (simp add: animationStateChanged_def Let_def handler_defs split: option.split)
qed

text \<open>
  Claim C8. \<open>dismiss\<close> does not read \<open>disableClose\<close>: on two states that differ only in that
  field it makes the same calls, stores the same result and registers the same listener, and the
  next animation event (which arms the timer) again leaves two states that differ only in
  that field.
\<close>

theorem dismiss_independent_of_disableClose:
  "dismiss res (s\<lparr>disableClose := v\<rparr>) = (dismiss res s)\<lparr>disableClose := v\<rparr>
   \<and> calls (dismiss res (s\<lparr>disableClose := v\<rparr>)) = calls (dismiss res s)
   \<and> result (dismiss res (s\<lparr>disableClose := v\<rparr>)) = result (dismiss res s)
   \<and> step (Animation e) (dismiss res (s\<lparr>disableClose := v\<rparr>)) =
       (step (Animation e) (dismiss res s))\<lparr>disableClose := v\<rparr>"
proof -
  have d: "dismiss res (s\<lparr>disableClose := v\<rparr>) = (dismiss res s)\<lparr>disableClose := v\<rparr>"
    by (simp add: handler_defs)
  show ?thesis unfolding step.simps d animation_disableClose by simp
qed

theorem dismiss_independent_of_disableClose_witness:
  "calls (dismiss (Some (7::nat)) ((construct None)\<lparr>disableClose := Some True\<rparr>)) = [Exit]
   \<and> calls (dismiss (Some (7::nat)) (construct None)) = [Exit]"
  using dismiss_independent_of_disableClose
    [where res = "Some (7::nat)" and s = "construct None" and v = "Some True"]
  by (simp add: eval_defs)

text \<open>
  Claim C7. When closing is allowed (\<open>disableClose\<close> is not true), a backdrop click and an
  Escape key press without modifier keys suppress the default action of the event and call
  \<open>dismiss\<close> without a result. When closing is not allowed, both leave the instance as it is
  (in particular \<open>exit\<close> is not called). An Escape key press with a modifier key held leaves
  the instance as it is in either case.
\<close>

theorem backdrop_and_escape_dismiss_iff_close_allowed:
  "(closeAllowed s \<longrightarrow> step BackdropClick s = dismiss None (call PreventDefault s))
   \<and> (keyCode k = ESCAPE \<and> \<not> hasModifierKey (KeyboardEvent k) \<and> closeAllowed s \<longrightarrow>
        step (Keydown k) s = dismiss None (call PreventDefault s))
   \<and> (closeAllowed s \<and> \<not> closed (afterDismissed s) \<longrightarrow>
        calls (dismiss None (call PreventDefault s)) = calls s @ [PreventDefault, Exit]
        \<and> result (dismiss None (call PreventDefault s)) = None)
   \<and> (\<not> closeAllowed s \<longrightarrow> step BackdropClick s = s \<and> step (Keydown k) s = s)
   \<and> (hasModifierKey (KeyboardEvent k) \<longrightarrow> step (Keydown k) s = s)"
  by (simp add: handler_defs)

theorem backdrop_and_escape_dismiss_iff_close_allowed_witness:
  "calls (step BackdropClick (construct (Some False) :: nat bottom_sheet_ref)) = [PreventDefault, Exit]
   \<and> calls (step (Keydown \<lparr>keyCode = 27, altKey = False, shiftKey = False, ctrlKey = False,
        metaKey = False\<rparr>) (construct (Some False) :: nat bottom_sheet_ref)) = [PreventDefault, Exit]
   \<and> calls (step (Keydown \<lparr>keyCode = 27, altKey = False, shiftKey = False, ctrlKey = False,
        metaKey = False\<rparr>) (construct (Some True) :: nat bottom_sheet_ref)) = []
   \<and> calls (step BackdropClick (construct (Some True) :: nat bottom_sheet_ref)) = []
   \<and> calls (step (Keydown \<lparr>keyCode = 27, altKey = False, shiftKey = True, ctrlKey = False,
        metaKey = False\<rparr>) (construct (Some False) :: nat bottom_sheet_ref)) = []"
  using
    backdrop_and_escape_dismiss_iff_close_allowed [of "construct (Some False) :: nat bottom_sheet_ref"
      "\<lparr>keyCode = 27, altKey = False, shiftKey = False, ctrlKey = False, metaKey = False\<rparr>"]
    backdrop_and_escape_dismiss_iff_close_allowed [of "construct (Some True) :: nat bottom_sheet_ref"
      "\<lparr>keyCode = 27, altKey = False, shiftKey = False, ctrlKey = False, metaKey = False\<rparr>"]
    backdrop_and_escape_dismiss_iff_close_allowed [of "construct (Some False) :: nat bottom_sheet_ref"
      "\<lparr>keyCode = 27, altKey = False, shiftKey = True, ctrlKey = False, metaKey = False\<rparr>"]
  by (simp add: construct_def closeAllowed_def ESCAPE_def)

text \<open>
  Claim C10. The constructor copies the configuration's \<open>disableClose\<close>, which may be
  undefined. With \<open>disableClose\<close> undefined closing is allowed, and backdrop clicks and key
  presses do exactly what they do when it is false.
\<close>

theorem undefined_disableClose_allows_closing:
  "disableClose (construct c :: 'r bottom_sheet_ref) = c
   \<and> closeAllowed (s\<lparr>disableClose := None\<rparr>)
   \<and> step BackdropClick (s\<lparr>disableClose := None\<rparr>) =
       (step BackdropClick (s\<lparr>disableClose := Some False\<rparr>))\<lparr>disableClose := None\<rparr>
   \<and> step (Keydown k) (s\<lparr>disableClose := None\<rparr>) =
       (step (Keydown k) (s\<lparr>disableClose := Some False\<rparr>))\<lparr>disableClose := None\<rparr>"
  for s :: "'r bottom_sheet_ref"
  by (simp add: construct_def handler_defs)

theorem undefined_disableClose_allows_closing_witness:
  "disableClose (construct None :: nat bottom_sheet_ref) = None
   \<and> calls (step BackdropClick (construct None :: nat bottom_sheet_ref)) = [PreventDefault, Exit]
   \<and> calls (step (Keydown \<lparr>keyCode = 27, altKey = False, shiftKey = False, ctrlKey = False,
        metaKey = False\<rparr>) (construct None :: nat bottom_sheet_ref)) = [PreventDefault, Exit]"
  using undefined_disableClose_allows_closing [of None "construct None :: nat bottom_sheet_ref"
      "\<lparr>keyCode = 27, altKey = False, shiftKey = False, ctrlKey = False, metaKey = False\<rparr>"]
  by (simp add: eval_defs)

text \<open>
  Claim C2, as the code has it. As long as the \<open>afterDismissed\<close> stream has not completed,
  that is as long as no detachment has been delivered, nothing holds a call of \<open>dismiss\<close> back:
  each call stores its argument, registers one more listener for the first \<open>start\<close> event and
  asks the container to exit, so two calls in a row call \<open>exit\<close> twice.
\<close>

theorem dismiss_takes_effect_before_dismissed:
  assumes "Detachment \<notin> set tr"
  shows "calls (run (tr @ [Dismiss res, Dismiss res']) (construct c)) =
           calls (run tr (construct c)) @ [Exit, Exit]
         \<and> startSubscriptions (run (tr @ [Dismiss res, Dismiss res']) (construct c)) =
             startSubscriptions (run tr (construct c)) + 2
         \<and> result (run (tr @ [Dismiss res, Dismiss res']) (construct c)) = res'"
  using never_closed [of tr c] by (simp add: run_append handler_defs)

theorem dismiss_takes_effect_before_dismissed_witness:
  "Detachment \<notin> set [BackdropClick :: nat input]
   \<and> calls (run ([BackdropClick] @ [Dismiss (Some (1::nat)), Dismiss (Some 2)]) (construct None)) =
       [PreventDefault, Exit, Exit, Exit]
   \<and> startSubscriptions
        (run ([BackdropClick] @ [Dismiss (Some (1::nat)), Dismiss (Some 2)]) (construct None)) = 3"
proof -
  have h: "Detachment \<notin> set [BackdropClick :: nat input]" by simp
  have c: "calls (run [BackdropClick] (construct None :: nat bottom_sheet_ref)) =
             [PreventDefault, Exit]"
    "startSubscriptions (run [BackdropClick] (construct None :: nat bottom_sheet_ref)) = 1"
    by (simp_all add: eval_defs)
  show ?thesis
    using h c
      dismiss_takes_effect_before_dismissed
        [OF h, where res = "Some 1" and res' = "Some 2" and c = None]
    by simp
qed

text \<open>Two calls of \<open>dismiss\<close> on a fresh instance call \<open>exit\<close> twice, one call once.
  Both calls register a listener, so the \<open>start\<close> event arms two timers and keeps the handle
  of the second only: the \<open>done\<close>/\<open>hidden\<close> event clears that one, and the first still
  fires and calls \<open>dispose\<close> again. A call of \<open>dismiss\<close> after the detachment, when the
  stream has completed, calls \<open>exit\<close> as well: completion does not set the flag that the guard
  of \<open>dismiss\<close> reads.\<close>

theorem dismiss_twice_counterexample:
  "exits (run [Dismiss None] (construct None :: nat bottom_sheet_ref)) = 1
   \<and> exits (run [Dismiss None, Dismiss None] (construct None :: nat bottom_sheet_ref)) = 2
   \<and> disposals (run [Dismiss None, Dismiss None,
          Animation \<lparr>phaseName = ''start'', toState = ''hidden'', totalTime = 200\<rparr>,
          Animation \<lparr>phaseName = ''done'', toState = ''hidden'', totalTime = 200\<rparr>,
          Advance 300]
        (construct None :: nat bottom_sheet_ref)) = 2
   \<and> exits (run [Dismiss None, Detachment, Dismiss None]
        (construct None :: nat bottom_sheet_ref)) = 2"
  by (simp add: eval_defs)

text \<open>
  Claim C5, as the code has it. Every call of \<open>dismiss\<close> made before the \<open>afterDismissed\<close>
  stream has completed stores its argument as the result, replacing the value stored before,
  and does so in the call that asks the container to exit. Nothing but a call of \<open>dismiss\<close>
  (the caller's own, or the one made by the backdrop/Escape handler) ever changes the result.
\<close>

theorem result_written_by_every_dismiss:
  "(Detachment \<notin> set tr \<longrightarrow>
      result (run (tr @ [Dismiss res]) (construct c)) = res
      \<and> calls (run (tr @ [Dismiss res]) (construct c)) = calls (run tr (construct c)) @ [Exit])
   \<and> ((\<forall>i\<in>set tr'. \<not> is_dismiss_trigger i) \<longrightarrow>
        result (run (tr @ tr') (construct c)) = result (run tr (construct c)))"
  using never_closed [of tr c] by (simp add: run_append handler_defs result_run_other)

theorem result_written_by_every_dismiss_witness:
  "Detachment \<notin> set [Dismiss (Some (1::nat))]
   \<and> result (run ([Dismiss (Some (1::nat))] @ [Dismiss (Some 2)]) (construct None)) = Some 2
   \<and> result (run ([Dismiss (Some (1::nat))]
         @ [Animation \<lparr>phaseName = ''start'', toState = ''hidden'', totalTime = 200\<rparr>,
            Detachment, Advance 300]) (construct None)) = Some 1"
proof -
  have r: "result (run [Dismiss (Some (1::nat))] (construct None)) = Some 1"
    by (simp add: eval_defs)
  show ?thesis
    using r
      result_written_by_every_dismiss
        [where tr = "[Dismiss (Some (1::nat))]" and res = "Some 2" and c = None and tr' = "[]"]
      result_written_by_every_dismiss
        [where tr = "[Dismiss (Some (1::nat))]" and res = "Some 2" and c = None and tr' =
          "[Animation \<lparr>phaseName = ''start'', toState = ''hidden'', totalTime = 200\<rparr>,
            Detachment, Advance 300]"]
    by simp
qed

text \<open>A second call of \<open>dismiss\<close>, or a backdrop click, replaces the stored result, and so
  does a call of \<open>dismiss\<close> made after the detachment.\<close>

theorem result_overwritten_counterexample:
  "result (run [Dismiss (Some (1::nat))] (construct None)) = Some 1
   \<and> result (run [Dismiss (Some (1::nat)), Dismiss (Some 2)] (construct None)) = Some 2
   \<and> result (run [Dismiss (Some (1::nat)), BackdropClick] (construct None)) = None
   \<and> result (run [Dismiss (Some (1::nat)), Detachment, Dismiss (Some 2)] (construct None)) = Some 2"
  by (simp add: eval_defs)

end
